theory Spec2Isabelle
  imports Main "HOL-Library.AList"
begin

section \<open>The UniTrade executor service\<close>

text \<open>
  A shallow embedding of the class \<open>UniTradeExecutorService\<close>. The private fields of the
  class are the fields of the record \<open>state\<close>; every method takes the state and returns
  the new one. The providers the service awaits (UniSwap, UniTrade, EthGasStation, the
  webhook) are the fields of the record \<open>env\<close>: a rejected promise or a throw is the
  value \<open>None\<close> (or \<open>Rejects\<close>). Each handler runs as one atomic step; a call that
  the source does not await is placed where its continuation runs. Numbers are
  naturals. The resubscription on \<open>end\<close> and the start-up are left out.
\<close>

subsection \<open>Types of \<open>lib/types.ts\<close>\<close>

datatype ExitCodes = Success | GenericError | TooManyFailures | TooMuchGasLost

text \<open>The numeric value of the enum, which \<open>handleShutdown\<close> compares.\<close>

fun exitValue :: "ExitCodes \<Rightarrow> nat" where
  "exitValue Success = 0"
| "exitValue GenericError = 1"
| "exitValue TooManyFailures = 2"
| "exitValue TooMuchGasLost = 3"

datatype OrderState = Placed | Cancelled | Executed

record IUniTradeOrder =
  orderId :: nat
  orderType :: nat
  maker :: string
  tokenIn :: string
  tokenOut :: string
  amountInOffered :: nat
  amountOutExpected :: nat
  executorFee :: nat
  totalEthDeposited :: nat
  orderState :: OrderState
  deflationary :: bool

text \<open>
  Of \<open>IContractEvent\<close> the handlers read \<open>transactionHash\<close> and the optional
  \<open>returnValues\<close>, which they cast to an order.
\<close>

record IContractEvent =
  transactionHash :: string
  returnValues :: "IUniTradeOrder option"

subsection \<open>Configuration\<close>

text \<open>
  \<open>config\<close> holds strings read from the environment. The record keeps what the service
  reads off them: \<open>Number(config.badOrderRetry)\<close>, \<open>parseInt(config.maxFailureCount)\<close>
  and \<open>parseInt(config.maxFailureGasCost)\<close>, with \<open>None\<close> where the string is empty or
  the number is NaN (the comparison is then false); \<open>maxFailureDuration\<close> is \<open>None\<close>
  for an empty string and else the delay handed to \<open>setTimeout\<close>;
  \<open>resetTimerOnFailure\<close> is \<open>config.resetTimerOnFailure?.toLowerCase() === "true"\<close>.
\<close>

record IConfig =
  badOrderRetry :: "int option"
  maxFailureCount :: "int option"
  maxFailureGasCost :: "int option"
  maxFailureDuration :: "nat option"
  resetTimerOnFailure :: bool
  failureShutdownWebhookUrl :: string

subsection \<open>The token pool\<close>

text \<open>
  Modelled from the spec: the class \<open>TokenPool\<close> of \<open>lib/classes\<close>, which the service
  imports and whose source is not among the files. The spec (Market Pool, and the Order
  Pool Registry) gives it a pair address and a mapping from order identifier to order,
  with \<open>addOrder\<close>, \<open>removeOrder\<close> (no-op if absent) and a count; the service reads its
  field \<open>orders\<close> by key.
\<close>

record TokenPool =
  pairAddress :: string
  orders :: "(nat \<times> IUniTradeOrder) list"

definition newTokenPool :: "string \<Rightarrow> TokenPool" where
  "newTokenPool pair = \<lparr>pairAddress = pair, orders = []\<rparr>"

definition addOrder :: "nat \<Rightarrow> IUniTradeOrder \<Rightarrow> TokenPool \<Rightarrow> TokenPool" where
  "addOrder oid order pool = pool\<lparr>orders := AList.update oid order (orders pool)\<rparr>"

definition removeOrder :: "nat \<Rightarrow> TokenPool \<Rightarrow> TokenPool" where
  "removeOrder oid pool = pool\<lparr>orders := AList.delete oid (orders pool)\<rparr>"

definition getOrderCount :: "TokenPool \<Rightarrow> nat" where
  "getOrderCount pool = length (orders pool)"

subsection \<open>Collaborators\<close>

text \<open>
  \<open>handleFailedExecution\<close> takes any value: \<open>err.receipt\<close> in one caller, a transaction
  hash in the other. It reads the truthiness of the value and its property \<open>gasUsed\<close>:
  \<open>None\<close> is a falsy argument, \<open>Some g\<close> a truthy one whose \<open>gasUsed\<close> is \<open>g\<close>
  (\<open>None\<close> when the property is undefined).
\<close>

type_synonym receipt_arg = "nat option option"

datatype exec_result = Resolves bool | Rejects receipt_arg

text \<open>The receipt of \<open>getTransactionReceipt\<close>: its \<open>status\<close> and \<open>gasUsed\<close>.\<close>

record TransactionReceipt =
  status :: bool
  gasUsed :: nat

text \<open>
  The answers of the providers while one event is handled. \<open>getPairAddress\<close> and
  \<open>isInTheMoney\<close> give \<open>None\<close> when the promise rejects. \<open>ESTIMATED_GAS_OVERRIDE\<close> is
  the variable of the environment after \<open>parseInt\<close>, \<open>None\<close> when it is unset or empty
  (a value that does not parse is NaN, falsy like \<open>0\<close>, and stands as \<open>0\<close>).
  \<open>getEstimatedGasForOrder\<close> gives \<open>None\<close> when it throws; an estimate or a gas price
  of \<open>0\<close> is the falsy answer. \<open>getTransactionReceipt\<close> gives \<open>None\<close> for \<open>null\<close>.
\<close>

record env =
  getPairAddress :: "string \<Rightarrow> string \<Rightarrow> string option"
  isInTheMoney :: "IUniTradeOrder \<Rightarrow> bool option"
  ESTIMATED_GAS_OVERRIDE :: "nat option"
  getEstimatedGasForOrder :: "nat \<Rightarrow> nat option"
  getPreferredGasPrice :: nat
  executeOrder :: "IUniTradeOrder \<Rightarrow> nat \<Rightarrow> nat \<Rightarrow> exec_result"
  getTransactionReceipt :: "string \<Rightarrow> TransactionReceipt option"

text \<open>The calls the service makes to the outside, in the order it makes them.\<close>

datatype call =
    IsInTheMoney nat
  | GetEstimatedGasForOrder nat
  | GetPreferredGasPrice
  | ExecuteOrder nat nat nat
  | Fetch string ExitCodes

subsection \<open>The state of the service and of its process\<close>

text \<open>
  The first eight fields are the fields of the class (\<open>poolListeners\<close> and
  \<open>orderListeners\<close> by their keys; \<open>failureListener\<close> is never assigned). The others
  are the process around it: \<open>timers\<close> are the pending timeouts of the runtime
  (\<open>setTimeout\<close> adds one, and the source never calls \<open>clearTimeout\<close>), \<open>nextTimer\<close>
  the next handle, \<open>exited\<close> the code given to \<open>process.exit\<close>, \<open>awaiting\<close> the
  shutdowns suspended at \<open>await fetch\<close>, \<open>shutdowns\<close> the codes \<open>handleShutdown\<close> was
  called with, and \<open>calls\<close> the trace of outside calls. \<open>fault\<close> says how the \<open>try\<close>
  of \<open>handleShutdown\<close> goes when it runs: without a throw; or \<open>removeAllListeners\<close> of
  a subscription throws, the two sets being the pool and the order subscriptions still
  registered at that moment (the throwing one, whose \<open>delete\<close> is not reached, and
  those after it in key order); or the call of \<open>fetch\<close> throws.
\<close>

datatype fault = NoFault | ListenerThrows "string set" "string set" | FetchThrows

record state =
  orderLocks :: "nat set"
  badOrderMap :: "nat \<rightharpoonup> nat"
  pools :: "string \<rightharpoonup> TokenPool"
  poolListeners :: "string set"
  orderListeners :: "string set"
  failedTxnTimer :: "nat option"
  failedTxnCount :: nat
  failedTxnGasCost :: nat
  timers :: "nat list"
  nextTimer :: nat
  exited :: "ExitCodes option"
  awaiting :: "ExitCodes list"
  shutdowns :: "ExitCodes list"
  calls :: "call list"
  fault :: fault

definition called :: "call \<Rightarrow> state \<Rightarrow> state" where
  "called c s = s\<lparr>calls := calls s @ [c]\<rparr>"

text \<open>Code after \<open>process.exit\<close> does not run.\<close>

definition alive :: "state \<Rightarrow> bool" where
  "alive s = (exited s = None)"

definition whenAlive :: "(state \<Rightarrow> state) \<Rightarrow> state \<Rightarrow> state" where
  "whenAlive f s = (if alive s then f s else s)"

subsection \<open>Shutdown\<close>

text \<open>
  The subscriptions left when a \<open>removeAllListeners\<close> throws in the two loops of
  \<open>handleShutdown\<close> (lines 50 to 66), \<open>None\<close> when none throws. The pool subscriptions
  come first: a throw among them leaves every order subscription; a throw among the
  order subscriptions leaves no pool subscription. A fault that names no subscription
  of the state is no throw.
\<close>

definition remaining :: "state \<Rightarrow> (string set \<times> string set) option" where
  "remaining s =
     (case fault s of
        ListenerThrows ps os \<Rightarrow>
          if ps \<subseteq> poolListeners s \<and> os \<subseteq> orderListeners s
             \<and> (ps \<noteq> {} \<and> os = orderListeners s \<or> ps = {} \<and> os \<noteq> {})
          then Some (ps, os) else None
      | NoFault \<Rightarrow> None
      | FetchThrows \<Rightarrow> None)"

text \<open>
  \<open>handleShutdown\<close> up to its \<open>await\<close>. A throw inside the \<open>try\<close> reaches the
  \<open>catch\<close> of line 85, which logs and calls \<open>process.exit(1)\<close>. Without a throw both
  listener maps are emptied; with a code above \<open>GenericError\<close> and a webhook URL the
  notification is sent and the function suspends, else the process exits with the
  code.
\<close>

definition handleShutdown :: "IConfig \<Rightarrow> ExitCodes \<Rightarrow> state \<Rightarrow> state" where
  "handleShutdown cfg exitCode s =
     (let s0 = s\<lparr>shutdowns := shutdowns s @ [exitCode]\<rparr>
      in case remaining s of
           Some (ps, os) \<Rightarrow>
             s0\<lparr>poolListeners := ps, orderListeners := os, exited := Some GenericError\<rparr>
         | None \<Rightarrow>
             (let s1 = s0\<lparr>poolListeners := {}, orderListeners := {}\<rparr>
              in if exitValue exitCode > exitValue GenericError
                    \<and> failureShutdownWebhookUrl cfg \<noteq> []
                 then if fault s = FetchThrows then s1\<lparr>exited := Some GenericError\<rparr>
                      else (called (Fetch (failureShutdownWebhookUrl cfg) exitCode) s1)
                             \<lparr>awaiting := awaiting s1 @ [exitCode]\<rparr>
                 else s1\<lparr>exited := Some exitCode\<rparr>))"

text \<open>
  The rest of \<open>handleShutdown\<close>, when the \<open>fetch\<close> of the oldest suspended shutdown
  settles: \<open>process.exit(exitCode)\<close> if it resolved, and the \<open>catch\<close> branch,
  \<open>process.exit(1)\<close>, if it rejected.
\<close>

definition fetchSettled :: "bool \<Rightarrow> state \<Rightarrow> state" where
  "fetchSettled ok s =
     (case awaiting s of
        [] \<Rightarrow> s
      | exitCode # rest \<Rightarrow>
          s\<lparr>awaiting := rest, exited := Some (if ok then exitCode else GenericError)\<rparr>)"

definition handleError :: "IConfig \<Rightarrow> ExitCodes \<Rightarrow> state \<Rightarrow> state" where
  "handleError cfg exitCode s =
     (if exitValue exitCode \<noteq> 0 then handleShutdown cfg exitCode s else s)"

subsection \<open>Locks and pools\<close>

definition lockOrder :: "nat \<Rightarrow> state \<Rightarrow> state" where
  "lockOrder oid s = s\<lparr>orderLocks := insert oid (orderLocks s)\<rparr>"

definition unlockOrder :: "nat \<Rightarrow> state \<Rightarrow> state" where
  "unlockOrder oid s =
     (if oid \<in> orderLocks s then s\<lparr>orderLocks := orderLocks s - {oid}\<rparr> else s)"

text \<open>
  \<open>getOrCreatePool\<close> returns the pool after creating it, with its Sync subscription,
  when the registry has none for the pair. \<open>createPoolChangeListener\<close> is taken to
  succeed: the subscription is in \<open>poolListeners\<close> from then on.
\<close>

definition getOrCreatePool :: "string \<Rightarrow> state \<Rightarrow> state" where
  "getOrCreatePool pair s =
     (case pools s pair of
        None \<Rightarrow> s\<lparr>pools := (pools s)(pair \<mapsto> newTokenPool pair),
                   poolListeners := insert pair (poolListeners s)\<rparr>
      | Some pool \<Rightarrow> s)"

definition addPoolOrder :: "IConfig \<Rightarrow> env \<Rightarrow> nat \<Rightarrow> IUniTradeOrder \<Rightarrow> state \<Rightarrow> state" where
  "addPoolOrder cfg e oid order s =
     (case getPairAddress e (tokenIn order) (tokenOut order) of
        None \<Rightarrow> handleError cfg GenericError s
      | Some pair \<Rightarrow>
          (let s1 = getOrCreatePool pair s
           in case pools s1 pair of
                None \<Rightarrow> s1
              | Some pool \<Rightarrow> s1\<lparr>pools := (pools s1)(pair \<mapsto> addOrder oid order pool)\<rparr>))"

definition removePoolOrder :: "IConfig \<Rightarrow> env \<Rightarrow> nat \<Rightarrow> IUniTradeOrder \<Rightarrow> state \<Rightarrow> state" where
  "removePoolOrder cfg e oid order s =
     (case getPairAddress e (tokenIn order) (tokenOut order) of
        None \<Rightarrow> handleError cfg GenericError s
      | Some pair \<Rightarrow>
          (case pools s pair of
             None \<Rightarrow> s
           | Some orderPool \<Rightarrow> s\<lparr>pools := (pools s)(pair \<mapsto> removeOrder oid orderPool)\<rparr>))"

subsection \<open>The circuit breaker\<close>

text \<open>The \<open>setTimeout\<close> of \<open>handleFailedExecution\<close>: a new pending timeout, kept in the field.\<close>

definition setFailedTxnTimer :: "state \<Rightarrow> state" where
  "setFailedTxnTimer s =
     s\<lparr>failedTxnTimer := Some (nextTimer s), timers := timers s @ [nextTimer s],
       nextTimer := Suc (nextTimer s)\<rparr>"

definition handleFailedExecution :: "IConfig \<Rightarrow> receipt_arg \<Rightarrow> state \<Rightarrow> state" where
  "handleFailedExecution cfg receipt s =
     (case receipt of
        None \<Rightarrow> s
      | Some used \<Rightarrow>
          (let s1 = s\<lparr>failedTxnCount := failedTxnCount s + 1,
                       failedTxnGasCost :=
                         failedTxnGasCost s + (case used of None \<Rightarrow> 0 | Some g \<Rightarrow> g)\<rparr>;
               s2 = (case maxFailureCount cfg of
                       None \<Rightarrow> s1
                     | Some m \<Rightarrow>
                         if int (failedTxnCount s1) \<ge> m
                         then handleError cfg TooManyFailures s1 else s1);
               s3 = whenAlive (\<lambda>t. case maxFailureGasCost cfg of
                       None \<Rightarrow> t
                     | Some m \<Rightarrow>
                         if int (failedTxnGasCost t) \<ge> m
                         then handleError cfg TooMuchGasLost t else t) s2
           in whenAlive (\<lambda>t. case maxFailureDuration cfg of
                       None \<Rightarrow> t
                     | Some d \<Rightarrow>
                         if failedTxnTimer t = None \<or> resetTimerOnFailure cfg
                         then setFailedTxnTimer t else t) s3))"

text \<open>The callback of the timeout \<open>t\<close>, run by the runtime when \<open>t\<close> is pending.\<close>

definition timerExpired :: "nat \<Rightarrow> state \<Rightarrow> state" where
  "timerExpired t s =
     (if t \<in> set (timers s)
      then s\<lparr>timers := removeAll t (timers s), failedTxnCount := 0,
             failedTxnGasCost := 0, failedTxnTimer := None\<rparr>
      else s)"

subsection \<open>The execution decision\<close>

text \<open>
  \<open>executeIfAppropriate\<close> in three parts. Its result is \<open>None\<close> when the promise
  rejects (a rejected \<open>isInTheMoney\<close> is not caught), else the truthiness of what it
  returns.

  Lines 207 to 235: the gas price, the product \<open>toBN(estimatedGas).mul(toBN(gasPrice))\<close>
  over the naturals, and the comparison with the fee.
\<close>

definition arbitrate ::
  "IConfig \<Rightarrow> env \<Rightarrow> IUniTradeOrder \<Rightarrow> nat \<Rightarrow> state \<Rightarrow> bool option \<times> state" where
  "arbitrate cfg e order estimatedGas s =
     (let gasPrice = getPreferredGasPrice e;
          s1 = called GetPreferredGasPrice s
      in if gasPrice = 0 then (Some False, unlockOrder (orderId order) s1)
         else
           (let gas = estimatedGas * gasPrice
            in if gas < executorFee order
               then
                 (let s2 = called (ExecuteOrder (orderId order) estimatedGas gasPrice) s1
                  in case executeOrder e order estimatedGas gasPrice of
                       Resolves r \<Rightarrow> (Some r, s2)
                     | Rejects receipt \<Rightarrow>
                         (Some False,
                          whenAlive (unlockOrder (orderId order))
                            (handleFailedExecution cfg receipt s2)))
               else (Some False, unlockOrder (orderId order) s1)))"

text \<open>
  Lines 183 to 206. In the \<open>catch\<close> branch \<open>estimatedGas\<close> stays undefined, so the
  function unlocks and returns false; \<open>removePoolOrder\<close> is called without \<open>await\<close>
  and suspends at once, so its body runs after that return.
\<close>

definition estimate ::
  "IConfig \<Rightarrow> env \<Rightarrow> IUniTradeOrder \<Rightarrow> state \<Rightarrow> bool option \<times> state" where
  "estimate cfg e order s =
     (let withGas = (\<lambda>estimatedGas t.
            if estimatedGas = 0 then (Some False, unlockOrder (orderId order) t)
            else arbitrate cfg e order estimatedGas t)
      in case ESTIMATED_GAS_OVERRIDE e of
           Some n \<Rightarrow> withGas n s
         | None \<Rightarrow>
             (let s1 = called (GetEstimatedGasForOrder (orderId order)) s
              in case getEstimatedGasForOrder e (orderId order) of
                   Some g \<Rightarrow> withGas g s1
                 | None \<Rightarrow>
                     (let n = (case badOrderMap s1 (orderId order) of
                                 None \<Rightarrow> 1
                               | Some c \<Rightarrow> if c \<noteq> 0 then c + 1 else 1);
                          s2 = s1\<lparr>badOrderMap := (badOrderMap s1)(orderId order \<mapsto> n)\<rparr>;
                          s3 = unlockOrder (orderId order) s2
                      in (Some False,
                          case badOrderRetry cfg of
                            None \<Rightarrow> s3
                          | Some r \<Rightarrow>
                              if int n > r
                              then removePoolOrder cfg e (orderId order) order s3
                              else s3))))"

definition executeIfAppropriate ::
  "IConfig \<Rightarrow> env \<Rightarrow> IUniTradeOrder \<Rightarrow> state \<Rightarrow> bool option \<times> state" where
  "executeIfAppropriate cfg e order s =
     (if orderId order \<in> orderLocks s then (Some False, s)
      else if orderState order \<noteq> Placed then (Some False, s)
      else
        (let s1 = called (IsInTheMoney (orderId order)) (lockOrder (orderId order) s)
         in case isInTheMoney e order of
              None \<Rightarrow> (None, s1)
            | Some inTheMoney \<Rightarrow>
                if inTheMoney then estimate cfg e order s1
                else (Some False, unlockOrder (orderId order) s1)))"

subsection \<open>The event handlers\<close>

text \<open>
  The loop of the Sync handler over \<open>Object.keys(this.pools[pairAddress].orders)\<close>; the
  order of each key is read again from the registry.
\<close>

fun syncOrders :: "IConfig \<Rightarrow> env \<Rightarrow> string \<Rightarrow> nat list \<Rightarrow> state \<Rightarrow> state" where
  "syncOrders cfg e pair [] s = s"
| "syncOrders cfg e pair (k # ks) s =
     (case pools s pair of
        None \<Rightarrow> s
      | Some pool \<Rightarrow>
          (case map_of (orders pool) k of
             None \<Rightarrow> syncOrders cfg e pair ks s
           | Some order \<Rightarrow>
               (case executeIfAppropriate cfg e order s of
                  (None, s1) \<Rightarrow> s1
                | (Some executed, s1) \<Rightarrow>
                    if \<not> alive s1 then s1
                    else syncOrders cfg e pair ks
                           (case pools s1 pair of
                              None \<Rightarrow> s1
                            | Some p \<Rightarrow>
                                if executed
                                then s1\<lparr>pools :=
                                          (pools s1)(pair \<mapsto> removeOrder (orderId order) p)\<rparr>
                                else s1))))"

definition removeSubscription :: "string \<Rightarrow> state \<Rightarrow> state" where
  "removeSubscription pair s =
     s\<lparr>poolListeners := poolListeners s - {pair}, pools := (pools s)(pair := None)\<rparr>"

text \<open>The \<open>data\<close> handler of \<open>createPoolChangeListener\<close> (lines 294 to 317).\<close>

definition poolChangeData :: "IConfig \<Rightarrow> env \<Rightarrow> string \<Rightarrow> state \<Rightarrow> state" where
  "poolChangeData cfg e pair s =
     (case pools s pair of
        None \<Rightarrow> removeSubscription pair s
      | Some pool \<Rightarrow>
          if getOrderCount pool = 0 then removeSubscription pair s
          else syncOrders cfg e pair (map fst (orders pool)) s)"

text \<open>The \<open>data\<close> handler of \<open>createOrderPlacedListener\<close> (lines 346 to 356).\<close>

definition orderPlacedData :: "IConfig \<Rightarrow> env \<Rightarrow> IContractEvent \<Rightarrow> state \<Rightarrow> state" where
  "orderPlacedData cfg e ev s =
     (case returnValues ev of
        None \<Rightarrow> s
      | Some order \<Rightarrow>
          (case executeIfAppropriate cfg e order s of
             (None, s1) \<Rightarrow> s1
           | (Some executed, s1) \<Rightarrow>
               if \<not> executed then whenAlive (addPoolOrder cfg e (orderId order) order) s1
               else s1))"

text \<open>
  Lines 394 to 406, which the handlers of \<open>OrderCancelled\<close> and \<open>OrderExecuted\<close>
  share: \<open>removePoolOrder\<close> is not awaited, but its request for the pair address is
  issued before the handler's own, so its body runs first. The test of line 400 (and
  470) is \<open>!this.pools[pairAddress] || this.pools[pairAddress].getOrderCount()\<close>.
\<close>

definition removeTracked :: "IConfig \<Rightarrow> env \<Rightarrow> IUniTradeOrder \<Rightarrow> state \<Rightarrow> state" where
  "removeTracked cfg e order s =
     (let s1 = removePoolOrder cfg e (orderId order) order s
      in if \<not> alive s1 then s1
         else case getPairAddress e (tokenIn order) (tokenOut order) of
                None \<Rightarrow> s1
              | Some pair \<Rightarrow>
                  (case pools s1 pair of
                     None \<Rightarrow> removeSubscription pair s1
                   | Some pool \<Rightarrow>
                       if getOrderCount pool \<noteq> 0 then removeSubscription pair s1
                       else s1))"

definition orderCancelledData :: "IConfig \<Rightarrow> env \<Rightarrow> IContractEvent \<Rightarrow> state \<Rightarrow> state" where
  "orderCancelledData cfg e ev s =
     (case returnValues ev of
        None \<Rightarrow> s
      | Some order \<Rightarrow> removeTracked cfg e order s)"

text \<open>
  The \<open>data\<close> handler of \<open>createOrderExecutedListener\<close> (lines 442 to 478). A failed
  receipt hands the transaction hash, a string, to \<open>handleFailedExecution\<close>: truthy
  unless empty, and without \<open>gasUsed\<close>.
\<close>

definition orderExecutedData :: "IConfig \<Rightarrow> env \<Rightarrow> IContractEvent \<Rightarrow> state \<Rightarrow> state" where
  "orderExecutedData cfg e ev s =
     (let failed = (case getTransactionReceipt e (transactionHash ev) of
                      None \<Rightarrow> False
                    | Some receipt \<Rightarrow> \<not> status receipt)
      in if failed
         then handleFailedExecution cfg
                (if transactionHash ev = [] then None else Some None) s
         else case returnValues ev of
                None \<Rightarrow> s
              | Some order \<Rightarrow> removeTracked cfg e order s)"

subsection \<open>The service as a transition system\<close>

text \<open>
  What can happen to a running service: an event on one of its subscriptions, a timeout
  of the runtime, the webhook request settling, a termination signal. An event reaches
  its handler while the subscription has listeners, and nothing runs after the exit.
\<close>

datatype event =
    OrderPlaced IContractEvent
  | OrderCancelled IContractEvent
  | OrderExecuted IContractEvent
  | Sync string
  | TimerFires nat
  | FetchSettles bool
  | Signal

definition step :: "IConfig \<Rightarrow> env \<Rightarrow> event \<Rightarrow> state \<Rightarrow> state" where
  "step cfg e ev s =
     (if \<not> alive s then s
      else case ev of
             OrderPlaced x \<Rightarrow>
               if ''OrderPlaced'' \<in> orderListeners s then orderPlacedData cfg e x s else s
           | OrderCancelled x \<Rightarrow>
               if ''OrderCancelled'' \<in> orderListeners s then orderCancelledData cfg e x s else s
           | OrderExecuted x \<Rightarrow>
               if ''OrderExecuted'' \<in> orderListeners s then orderExecutedData cfg e x s else s
           | Sync pair \<Rightarrow>
               if pair \<in> poolListeners s then poolChangeData cfg e pair s else s
           | TimerFires t \<Rightarrow> timerExpired t s
           | FetchSettles ok \<Rightarrow> fetchSettled ok s
           | Signal \<Rightarrow> handleShutdown cfg Success s)"

text \<open>A run: each event comes with the answers the providers give while it is handled.\<close>

fun run :: "IConfig \<Rightarrow> (env \<times> event) list \<Rightarrow> state \<Rightarrow> state" where
  "run cfg [] s = s"
| "run cfg ((e, ev) # rest) s = run cfg rest (step cfg e ev s)"

text \<open>The field initialisers of the class, in a process that has set no timeout.\<close>

definition initialState :: state where
  "initialState =
     \<lparr>orderLocks = {}, badOrderMap = Map.empty, pools = Map.empty, poolListeners = {},
      orderListeners = {}, failedTxnTimer = None, failedTxnCount = 0,
      failedTxnGasCost = 0, timers = [], nextTimer = 0, exited = None, awaiting = [],
      shutdowns = [], calls = [], fault = NoFault\<rparr>"

subsection \<open>Observations\<close>

text \<open>The execution attempts among the outside calls.\<close>

fun isAttempt :: "call \<Rightarrow> bool" where
  "isAttempt (ExecuteOrder i g p) = True"
| "isAttempt c = False"

definition attempts :: "state \<Rightarrow> call list" where
  "attempts s = filter isAttempt (calls s)"

text \<open>
  The value \<open>estimatedGas\<close> has after the \<open>try\<close> of line 184 when nothing was thrown:
  the override of the environment if set, else the provider's answer.
\<close>

definition usableEstimate :: "env \<Rightarrow> nat \<Rightarrow> nat option" where
  "usableEstimate e oid =
     (case ESTIMATED_GAS_OVERRIDE e of
        Some n \<Rightarrow> Some n
      | None \<Rightarrow> getEstimatedGasForOrder e oid)"

text \<open>The entry of \<open>badOrderMap\<close> read as a number: absent counts as zero.\<close>

definition retries :: "state \<Rightarrow> nat \<Rightarrow> nat" where
  "retries s oid = (case badOrderMap s oid of None \<Rightarrow> 0 | Some c \<Rightarrow> c)"

text \<open>The codes \<open>handleShutdown\<close> was called with between two states.\<close>

definition raised :: "state \<Rightarrow> state \<Rightarrow> ExitCodes list" where
  "raised s s' = drop (length (shutdowns s)) (shutdowns s')"

text \<open>Neither failure counter is smaller in the second state than in the first.\<close>

definition grown :: "state \<Rightarrow> state \<Rightarrow> bool" where
  "grown s t =
     (failedTxnCount s \<le> failedTxnCount t \<and> failedTxnGasCost s \<le> failedTxnGasCost t)"

subsection \<open>Sample inputs\<close>

definition sampleOrder :: IUniTradeOrder where
  "sampleOrder =
     \<lparr>orderId = 7, orderType = 0, maker = ''0xM'', tokenIn = ''0xA'', tokenOut = ''0xB'',
      amountInOffered = 1000, amountOutExpected = 900, executorFee = 100,
      totalEthDeposited = 100, orderState = Placed, deflationary = False\<rparr>"

definition otherOrder :: IUniTradeOrder where
  "otherOrder = sampleOrder\<lparr>orderId := 8\<rparr>"

definition sampleEnv :: env where
  "sampleEnv =
     \<lparr>getPairAddress = (\<lambda>a b. Some ''0xP''), isInTheMoney = (\<lambda>order. Some True),
      ESTIMATED_GAS_OVERRIDE = None, getEstimatedGasForOrder = (\<lambda>oid. Some 8),
      getPreferredGasPrice = 10, executeOrder = (\<lambda>order g p. Resolves True),
      getTransactionReceipt = (\<lambda>h. None)\<rparr>"

definition falsyEnv :: env where
  "falsyEnv = sampleEnv\<lparr>executeOrder := \<lambda>order g p. Resolves False\<rparr>"

definition placedEvent :: IContractEvent where
  "placedEvent = \<lparr>transactionHash = ''0xT'', returnValues = Some sampleOrder\<rparr>"

definition cancelEvent :: IContractEvent where
  "cancelEvent = \<lparr>transactionHash = ''0xC'', returnValues = Some sampleOrder\<rparr>"

definition sampleConfig :: IConfig where
  "sampleConfig =
     \<lparr>badOrderRetry = Some 2, maxFailureCount = Some 3, maxFailureGasCost = Some 1000000,
      maxFailureDuration = Some 60000, resetTimerOnFailure = False,
      failureShutdownWebhookUrl = []\<rparr>"




section \<open>Properties\<close>

subsection \<open>What each method leaves alone\<close>

lemma attempts_updates [simp]:
  "attempts (s\<lparr>orderLocks := l\<rparr>) = attempts s"
  "attempts (s\<lparr>badOrderMap := b\<rparr>) = attempts s"
  "attempts (s\<lparr>pools := p\<rparr>) = attempts s"
  "attempts (s\<lparr>poolListeners := pl\<rparr>) = attempts s"
  "attempts (s\<lparr>failedTxnCount := n\<rparr>) = attempts s"
  "attempts (s\<lparr>failedTxnGasCost := g\<rparr>) = attempts s"
  by (simp_all add: attempts_def)

lemma called_frame [simp]:
  "orderLocks (called c s) = orderLocks s"
  "pools (called c s) = pools s"
  "badOrderMap (called c s) = badOrderMap s"
  "failedTxnCount (called c s) = failedTxnCount s"
  "failedTxnGasCost (called c s) = failedTxnGasCost s"
  "exited (called c s) = exited s"
  "calls (called c s) = calls s @ [c]"
  by (simp_all add: called_def)

lemma attempts_called [simp]:
  "attempts (called c s) = (if isAttempt c then attempts s @ [c] else attempts s)"
  by (simp add: attempts_def)

lemma alive_called [simp]: "alive (called c s) = alive s"
  by (simp add: alive_def)

lemma lockOrder_frame [simp]:
  "orderLocks (lockOrder i s) = insert i (orderLocks s)"
  "pools (lockOrder i s) = pools s"
  "badOrderMap (lockOrder i s) = badOrderMap s"
  "failedTxnCount (lockOrder i s) = failedTxnCount s"
  "failedTxnGasCost (lockOrder i s) = failedTxnGasCost s"
  "exited (lockOrder i s) = exited s"
  "attempts (lockOrder i s) = attempts s"
  by (simp_all add: lockOrder_def attempts_def)

lemma unlockOrder_frame [simp]:
  "orderLocks (unlockOrder i s) = orderLocks s - {i}"
  "pools (unlockOrder i s) = pools s"
  "badOrderMap (unlockOrder i s) = badOrderMap s"
  "failedTxnCount (unlockOrder i s) = failedTxnCount s"
  "failedTxnGasCost (unlockOrder i s) = failedTxnGasCost s"
  "exited (unlockOrder i s) = exited s"
  "attempts (unlockOrder i s) = attempts s"
  by (auto simp add: unlockOrder_def attempts_def)

lemma handleShutdown_frame [simp]:
  "orderLocks (handleShutdown cfg c s) = orderLocks s"
  "pools (handleShutdown cfg c s) = pools s"
  "badOrderMap (handleShutdown cfg c s) = badOrderMap s"
  "failedTxnCount (handleShutdown cfg c s) = failedTxnCount s"
  "failedTxnGasCost (handleShutdown cfg c s) = failedTxnGasCost s"
  "attempts (handleShutdown cfg c s) = attempts s"
  by (simp_all add: handleShutdown_def Let_def attempts_def called_def
      split: option.splits prod.splits)

lemma handleError_frame [simp]:
  "orderLocks (handleError cfg c s) = orderLocks s"
  "pools (handleError cfg c s) = pools s"
  "badOrderMap (handleError cfg c s) = badOrderMap s"
  "failedTxnCount (handleError cfg c s) = failedTxnCount s"
  "failedTxnGasCost (handleError cfg c s) = failedTxnGasCost s"
  "attempts (handleError cfg c s) = attempts s"
  by (simp_all add: handleError_def)

lemma setFailedTxnTimer_frame [simp]:
  "orderLocks (setFailedTxnTimer s) = orderLocks s"
  "pools (setFailedTxnTimer s) = pools s"
  "badOrderMap (setFailedTxnTimer s) = badOrderMap s"
  "failedTxnCount (setFailedTxnTimer s) = failedTxnCount s"
  "failedTxnGasCost (setFailedTxnTimer s) = failedTxnGasCost s"
  "exited (setFailedTxnTimer s) = exited s"
  "shutdowns (setFailedTxnTimer s) = shutdowns s"
  "attempts (setFailedTxnTimer s) = attempts s"
  by (simp_all add: setFailedTxnTimer_def attempts_def)

lemma removePoolOrder_frame [simp]:
  "orderLocks (removePoolOrder cfg e i order s) = orderLocks s"
  "badOrderMap (removePoolOrder cfg e i order s) = badOrderMap s"
  "failedTxnCount (removePoolOrder cfg e i order s) = failedTxnCount s"
  "failedTxnGasCost (removePoolOrder cfg e i order s) = failedTxnGasCost s"
  "attempts (removePoolOrder cfg e i order s) = attempts s"
  by (simp_all add: removePoolOrder_def split: option.splits)

lemma getOrCreatePool_frame [simp]:
  "orderLocks (getOrCreatePool pair s) = orderLocks s"
  "badOrderMap (getOrCreatePool pair s) = badOrderMap s"
  "failedTxnCount (getOrCreatePool pair s) = failedTxnCount s"
  "failedTxnGasCost (getOrCreatePool pair s) = failedTxnGasCost s"
  "exited (getOrCreatePool pair s) = exited s"
  "attempts (getOrCreatePool pair s) = attempts s"
  by (simp_all add: getOrCreatePool_def split: option.splits)

lemma addPoolOrder_frame [simp]:
  "orderLocks (addPoolOrder cfg e i order s) = orderLocks s"
  "badOrderMap (addPoolOrder cfg e i order s) = badOrderMap s"
  "failedTxnCount (addPoolOrder cfg e i order s) = failedTxnCount s"
  "failedTxnGasCost (addPoolOrder cfg e i order s) = failedTxnGasCost s"
  "attempts (addPoolOrder cfg e i order s) = attempts s"
  by (simp_all add: addPoolOrder_def Let_def split: option.splits)

lemma removeSubscription_frame [simp]:
  "orderLocks (removeSubscription pair s) = orderLocks s"
  "badOrderMap (removeSubscription pair s) = badOrderMap s"
  "failedTxnCount (removeSubscription pair s) = failedTxnCount s"
  "failedTxnGasCost (removeSubscription pair s) = failedTxnGasCost s"
  "exited (removeSubscription pair s) = exited s"
  "attempts (removeSubscription pair s) = attempts s"
  by (simp_all add: removeSubscription_def)

lemma handleFailedExecution_frame [simp]:
  "orderLocks (handleFailedExecution cfg r s) = orderLocks s"
  "pools (handleFailedExecution cfg r s) = pools s"
  "badOrderMap (handleFailedExecution cfg r s) = badOrderMap s"
  "attempts (handleFailedExecution cfg r s) = attempts s"
  by (simp_all add: handleFailedExecution_def Let_def whenAlive_def split: option.splits)

subsection \<open>The skip of a locked or inactive order\<close>

text \<open>
  C6. \<open>executeIfAppropriate\<close> returns false and hands back the very state it was given
  (locks, pools, retry counters, failure counters and the trace of outside calls) when
  the order's id is in \<open>orderLocks\<close> or the order's state is not \<open>Placed\<close>: both tests
  come before \<open>lockOrder\<close> and before any provider is asked.
\<close>

theorem executeIfAppropriate_skips:
  "orderId order \<in> orderLocks s \<or> orderState order \<noteq> Placed \<Longrightarrow>
   executeIfAppropriate cfg e order s = (Some False, s)"
  by (auto simp add: executeIfAppropriate_def)

theorem executeIfAppropriate_skips_witness:
  "orderId sampleOrder \<in> orderLocks (lockOrder 7 initialState)
   \<and> executeIfAppropriate sampleConfig sampleEnv sampleOrder (lockOrder 7 initialState)
       = (Some False, lockOrder 7 initialState)"
proof -
  have locked: "orderId sampleOrder \<in> orderLocks (lockOrder 7 initialState)"
    by (simp add: sampleOrder_def)
  then have "orderId sampleOrder \<in> orderLocks (lockOrder 7 initialState)
      \<or> orderState sampleOrder \<noteq> Placed"
    by (rule disjI1)
  from executeIfAppropriate_skips [OF this] locked show ?thesis
    by simp
qed

subsection \<open>The fee gate\<close>

text \<open>
  C1. Take an order that is not locked, is \<open>Placed\<close> and in the money, with a usable
  gas estimate \<open>g\<close> and a gas price \<open>p\<close> (both non-zero). Then \<open>executeOrder\<close> is called,
  once and with \<open>g\<close> and \<open>p\<close>, exactly when the product \<open>g * p\<close> over the naturals is
  strictly below \<open>executorFee\<close>. When the product is the fee or more, no attempt is made,
  the lock is released and the result is false.
\<close>

theorem fee_gate:
  assumes "orderId order \<notin> orderLocks s" and "orderState order = Placed"
    and "isInTheMoney e order = Some True"
    and "usableEstimate e (orderId order) = Some g" and "g \<noteq> 0"
    and "getPreferredGasPrice e = p" and "p \<noteq> 0"
  shows "(g * p < executorFee order \<longrightarrow>
            attempts (snd (executeIfAppropriate cfg e order s))
              = attempts s @ [ExecuteOrder (orderId order) g p])
       \<and> (executorFee order \<le> g * p \<longrightarrow>
            attempts (snd (executeIfAppropriate cfg e order s)) = attempts s
          \<and> orderLocks (snd (executeIfAppropriate cfg e order s)) = orderLocks s
          \<and> fst (executeIfAppropriate cfg e order s) = Some False)"
  using assms
  by (simp add: executeIfAppropriate_def estimate_def arbitrate_def Let_def
      usableEstimate_def whenAlive_def split: option.splits exec_result.splits)

theorem fee_gate_witness:
  "attempts (snd (executeIfAppropriate sampleConfig sampleEnv sampleOrder initialState))
     = [ExecuteOrder 7 8 10]
   \<and> attempts (snd (executeIfAppropriate sampleConfig
        (sampleEnv\<lparr>getEstimatedGasForOrder := \<lambda>oid. Some 10\<rparr>) sampleOrder initialState)) = []
   \<and> orderLocks (snd (executeIfAppropriate sampleConfig
        (sampleEnv\<lparr>getEstimatedGasForOrder := \<lambda>oid. Some 10\<rparr>) sampleOrder initialState)) = {}
   \<and> fst (executeIfAppropriate sampleConfig
        (sampleEnv\<lparr>getEstimatedGasForOrder := \<lambda>oid. Some 10\<rparr>) sampleOrder initialState)
       = Some False"
  using fee_gate [of sampleOrder initialState sampleEnv 8 10 sampleConfig]
    fee_gate [of sampleOrder initialState
      "sampleEnv\<lparr>getEstimatedGasForOrder := \<lambda>oid. Some 10\<rparr>" 10 10 sampleConfig]
  by (simp add: sampleOrder_def sampleEnv_def initialState_def usableEstimate_def
      attempts_def)

subsection \<open>Gas estimation failures\<close>

lemma pools_removePoolOrder:
  "pools (removePoolOrder cfg e i order s) =
     (case getPairAddress e (tokenIn order) (tokenOut order) of
        None \<Rightarrow> pools s
      | Some pair \<Rightarrow>
          (case pools s pair of
             None \<Rightarrow> pools s
           | Some pool \<Rightarrow> (pools s)(pair \<mapsto> removeOrder i pool)))"
  by (simp add: removePoolOrder_def split: option.splits)

lemma map_of_removeOrder [simp]: "map_of (orders (removeOrder i pool)) i = None"
  by (simp add: removeOrder_def AList.delete_conv')

lemma estimate_failure:
  assumes "ESTIMATED_GAS_OVERRIDE e = None"
    and "getEstimatedGasForOrder e (orderId order) = None"
    and "badOrderRetry cfg = Some ceiling"
  shows "estimate cfg e order s =
     (Some False,
      (let s3 = unlockOrder (orderId order)
                  ((called (GetEstimatedGasForOrder (orderId order)) s)
                     \<lparr>badOrderMap := (badOrderMap s)(orderId order \<mapsto>
                                         retries s (orderId order) + 1)\<rparr>)
       in if ceiling < int (retries s (orderId order) + 1)
          then removePoolOrder cfg e (orderId order) order s3 else s3))"
  using assms
  by (simp add: estimate_def Let_def retries_def split: option.splits)

text \<open>
  C7. Take an order that is not locked, is \<open>Placed\<close> and in the money, with no override
  of the estimate, whose gas estimation throws, under a retry ceiling \<open>ceiling\<close>. Then
  \<open>executeIfAppropriate\<close> returns false with the lock released, the order's retry
  counter is one more than before, and the order is taken out of its pool when the new
  counter is strictly above the ceiling, while all pools stay as they were when it is
  at or below the ceiling.
\<close>

theorem gas_estimation_failure:
  assumes "orderId order \<notin> orderLocks s" and "orderState order = Placed"
    and "isInTheMoney e order = Some True"
    and "ESTIMATED_GAS_OVERRIDE e = None"
    and "getEstimatedGasForOrder e (orderId order) = None"
    and "badOrderRetry cfg = Some ceiling"
  shows "fst (executeIfAppropriate cfg e order s) = Some False
       \<and> orderLocks (snd (executeIfAppropriate cfg e order s)) = orderLocks s
       \<and> retries (snd (executeIfAppropriate cfg e order s)) (orderId order)
           = retries s (orderId order) + 1
       \<and> (ceiling < int (retries s (orderId order) + 1)
            \<and> getPairAddress e (tokenIn order) (tokenOut order) = Some pair
            \<and> pools s pair = Some pool \<longrightarrow>
          pools (snd (executeIfAppropriate cfg e order s))
            = (pools s)(pair \<mapsto> removeOrder (orderId order) pool))
       \<and> (int (retries s (orderId order) + 1) \<le> ceiling \<longrightarrow>
          pools (snd (executeIfAppropriate cfg e order s)) = pools s)"
proof -
  let ?i = "orderId order"
  let ?s1 = "called (IsInTheMoney ?i) (lockOrder ?i s)"
  have run: "executeIfAppropriate cfg e order s = estimate cfg e order ?s1"
    using assms(1-3) by (simp add: executeIfAppropriate_def Let_def)
  have same: "retries ?s1 ?i = retries s ?i"
    by (simp add: retries_def)
  have locks: "insert ?i (orderLocks s) - {?i} = orderLocks s"
    using assms(1) by auto
  show ?thesis
    unfolding run estimate_failure [OF assms(4-6)] same
    by (simp add: Let_def retries_def locks pools_removePoolOrder)
qed

theorem gas_estimation_failure_witness:
  "retries (snd (executeIfAppropriate sampleConfig
       (sampleEnv\<lparr>getEstimatedGasForOrder := \<lambda>oid. None\<rparr>) sampleOrder
       ((addPoolOrder sampleConfig sampleEnv 7 sampleOrder initialState)
          \<lparr>badOrderMap := [7 \<mapsto> 2]\<rparr>))) 7 = 3
   \<and> pools (snd (executeIfAppropriate sampleConfig
       (sampleEnv\<lparr>getEstimatedGasForOrder := \<lambda>oid. None\<rparr>) sampleOrder
       ((addPoolOrder sampleConfig sampleEnv 7 sampleOrder initialState)
          \<lparr>badOrderMap := [7 \<mapsto> 2]\<rparr>))) ''0xP''
       = Some (newTokenPool ''0xP'')
   \<and> pools (snd (executeIfAppropriate sampleConfig
       (sampleEnv\<lparr>getEstimatedGasForOrder := \<lambda>oid. None\<rparr>) sampleOrder
       ((addPoolOrder sampleConfig sampleEnv 7 sampleOrder initialState)
          \<lparr>badOrderMap := [7 \<mapsto> 1]\<rparr>))) ''0xP''
       = Some (addOrder 7 sampleOrder (newTokenPool ''0xP''))"
  using gas_estimation_failure [of sampleOrder
      "(addPoolOrder sampleConfig sampleEnv 7 sampleOrder initialState)
          \<lparr>badOrderMap := [7 \<mapsto> 2]\<rparr>"
      "sampleEnv\<lparr>getEstimatedGasForOrder := \<lambda>oid. None\<rparr>" sampleConfig 2
      "''0xP''" "addOrder 7 sampleOrder (newTokenPool ''0xP'')"]
    gas_estimation_failure [of sampleOrder
      "(addPoolOrder sampleConfig sampleEnv 7 sampleOrder initialState)
          \<lparr>badOrderMap := [7 \<mapsto> 1]\<rparr>"
      "sampleEnv\<lparr>getEstimatedGasForOrder := \<lambda>oid. None\<rparr>" sampleConfig 2
      "''0xP''" "addOrder 7 sampleOrder (newTokenPool ''0xP'')"]
  by (simp add: sampleOrder_def sampleEnv_def sampleConfig_def initialState_def
      addPoolOrder_def getOrCreatePool_def retries_def newTokenPool_def addOrder_def
      removeOrder_def)

subsection \<open>The circuit breaker\<close>

lemma handleShutdown_timers [simp]:
  "timers (handleShutdown cfg c s) = timers s"
  "failedTxnTimer (handleShutdown cfg c s) = failedTxnTimer s"
  "nextTimer (handleShutdown cfg c s) = nextTimer s"
  "fault (handleShutdown cfg c s) = fault s"
  by (simp_all add: handleShutdown_def Let_def called_def split: option.splits prod.splits)

lemma handleError_timers [simp]:
  "timers (handleError cfg c s) = timers s"
  "failedTxnTimer (handleError cfg c s) = failedTxnTimer s"
  "nextTimer (handleError cfg c s) = nextTimer s"
  "fault (handleError cfg c s) = fault s"
  by (simp_all add: handleError_def)

lemma handleShutdown_exit:
  "shutdowns (handleShutdown cfg c s) = shutdowns s @ [c]"
  "exited (handleShutdown cfg c s) =
     (if remaining s \<noteq> None then Some GenericError
      else if exitValue GenericError < exitValue c \<and> failureShutdownWebhookUrl cfg \<noteq> []
      then if fault s = FetchThrows then Some GenericError else exited s
      else Some c)"
  by (simp_all add: handleShutdown_def Let_def called_def split: option.splits prod.splits)

lemma remaining_updates [simp]:
  "remaining (s\<lparr>failedTxnCount := n\<rparr>) = remaining s"
  "remaining (s\<lparr>failedTxnGasCost := g\<rparr>) = remaining s"
  by (simp_all add: remaining_def split: fault.splits)

lemma raised_same [simp]: "raised s s = []"
  by (simp add: raised_def)

lemma raised_append [simp]: "shutdowns t = shutdowns s @ cs \<Longrightarrow> raised s t = cs"
  by (simp add: raised_def)

lemma handleFailedExecution_fault:
  "fault (handleFailedExecution cfg r s) = fault s"
  by (simp add: handleFailedExecution_def Let_def whenAlive_def setFailedTxnTimer_def
      handleError_def split: option.splits)

text \<open>
  \<open>handleFailedExecution\<close> with a truthy argument, written out: \<open>n\<close> and \<open>g\<close> are the
  new counters, \<open>many\<close> and \<open>costly\<close> say which thresholds they reach, and \<open>stops\<close>
  says that a shutdown above \<open>GenericError\<close> ends the process at once.
\<close>

lemma handleFailedExecution_raised:
  assumes "alive s" and "maxFailureCount cfg = Some m" and "maxFailureGasCost cfg = Some c"
    and "n = failedTxnCount s + 1"
    and "g = failedTxnGasCost s + (case used of None \<Rightarrow> 0 | Some u \<Rightarrow> u)"
    and "many = (m \<le> int n)" and "costly = (c \<le> int g)"
    and "stops = (failureShutdownWebhookUrl cfg = [] \<or> remaining s \<noteq> None
                  \<or> fault s = FetchThrows)"
  shows "shutdowns (handleFailedExecution cfg (Some used) s) =
           shutdowns s @ (if many then [TooManyFailures] else [])
                       @ (if costly \<and> \<not> (many \<and> stops) then [TooMuchGasLost] else [])"
    and "failedTxnCount (handleFailedExecution cfg (Some used) s) = n"
    and "failedTxnGasCost (handleFailedExecution cfg (Some used) s) = g"
    and "many \<and> failureShutdownWebhookUrl cfg = [] \<and> remaining s = None \<longrightarrow>
           exited (handleFailedExecution cfg (Some used) s) = Some TooManyFailures"
    and "\<not> many \<and> \<not> costly \<longrightarrow>
           exited (handleFailedExecution cfg (Some used) s) = None"
proof -
  let ?s1 = "s\<lparr>failedTxnCount := n, failedTxnGasCost := g\<rparr>"
  let ?s2 = "if many then handleError cfg TooManyFailures ?s1 else ?s1"
  let ?s3 = "whenAlive (\<lambda>t. if c \<le> int (failedTxnGasCost t)
                 then handleError cfg TooMuchGasLost t else t) ?s2"
  let ?s4 = "whenAlive (\<lambda>t. case maxFailureDuration cfg of
                 None \<Rightarrow> t
               | Some d \<Rightarrow>
                   if failedTxnTimer t = None \<or> resetTimerOnFailure cfg
                   then setFailedTxnTimer t else t) ?s3"
  have run: "handleFailedExecution cfg (Some used) s = ?s4"
    using assms(2-7) by (simp add: handleFailedExecution_def Let_def)
  have dead: "alive ?s2 = (\<not> (many \<and> stops))"
    using assms(1,8)
    by (simp add: alive_def handleError_def handleShutdown_exit)
  have cost2: "failedTxnGasCost ?s2 = g"
    by simp
  have sh2: "shutdowns ?s2 = shutdowns s @ (if many then [TooManyFailures] else [])"
    by (simp add: handleError_def handleShutdown_exit)
  have sh3: "shutdowns ?s3 = shutdowns s @ (if many then [TooManyFailures] else [])
               @ (if costly \<and> \<not> (many \<and> stops) then [TooMuchGasLost] else [])"
    using dead cost2 sh2 assms(7)
    by (simp add: whenAlive_def handleError_def handleShutdown_exit)
  have keep: "shutdowns (whenAlive (\<lambda>t. case maxFailureDuration cfg of
                 None \<Rightarrow> t
               | Some d \<Rightarrow>
                   if failedTxnTimer t = None \<or> resetTimerOnFailure cfg
                   then setFailedTxnTimer t else t) t) = shutdowns t"
      "exited (whenAlive (\<lambda>t. case maxFailureDuration cfg of
                 None \<Rightarrow> t
               | Some d \<Rightarrow>
                   if failedTxnTimer t = None \<or> resetTimerOnFailure cfg
                   then setFailedTxnTimer t else t) t) = exited t"
      "failedTxnCount (whenAlive (\<lambda>t. case maxFailureDuration cfg of
                 None \<Rightarrow> t
               | Some d \<Rightarrow>
                   if failedTxnTimer t = None \<or> resetTimerOnFailure cfg
                   then setFailedTxnTimer t else t) t) = failedTxnCount t"
      "failedTxnGasCost (whenAlive (\<lambda>t. case maxFailureDuration cfg of
                 None \<Rightarrow> t
               | Some d \<Rightarrow>
                   if failedTxnTimer t = None \<or> resetTimerOnFailure cfg
                   then setFailedTxnTimer t else t) t) = failedTxnGasCost t" for t
    by (simp_all add: whenAlive_def split: option.splits)
  show "shutdowns (handleFailedExecution cfg (Some used) s) =
           shutdowns s @ (if many then [TooManyFailures] else [])
                       @ (if costly \<and> \<not> (many \<and> stops) then [TooMuchGasLost] else [])"
    unfolding run keep by (rule sh3)
  show "failedTxnCount (handleFailedExecution cfg (Some used) s) = n"
    unfolding run keep by (simp add: whenAlive_def)
  show "failedTxnGasCost (handleFailedExecution cfg (Some used) s) = g"
    unfolding run keep by (simp add: whenAlive_def)
  show "many \<and> failureShutdownWebhookUrl cfg = [] \<and> remaining s = None \<longrightarrow>
           exited (handleFailedExecution cfg (Some used) s) = Some TooManyFailures"
    unfolding run keep
    by (simp add: whenAlive_def alive_def handleError_def handleShutdown_exit)
  show "\<not> many \<and> \<not> costly \<longrightarrow>
           exited (handleFailedExecution cfg (Some used) s) = None"
    unfolding run keep using assms(1,7)
    by (simp add: whenAlive_def alive_def)
qed

text \<open>
  C4, amended. A call of \<open>handleFailedExecution\<close> without a receipt (a falsy argument)
  returns the state as it was. A call with a receipt adds one to the failure count and
  the receipt's \<open>gasUsed\<close>, or zero when it has none, to the gas cost. It calls for a
  shutdown with \<open>TooManyFailures\<close> exactly when the new count is at or above the count
  threshold, and with \<open>TooMuchGasLost\<close> exactly when the new cost is at or above the
  cost threshold and the process has not just exited in the shutdown on the count
  threshold (which it does at once when no webhook is configured, or when that
  shutdown throws).
\<close>

theorem handleFailedExecution_thresholds:
  "handleFailedExecution cfg None s = s
   \<and> (alive s \<and> maxFailureCount cfg = Some m \<and> maxFailureGasCost cfg = Some c \<longrightarrow>
        failedTxnCount (handleFailedExecution cfg (Some used) s) = failedTxnCount s + 1
      \<and> failedTxnGasCost (handleFailedExecution cfg (Some used) s)
          = failedTxnGasCost s + (case used of None \<Rightarrow> 0 | Some u \<Rightarrow> u)
      \<and> (TooManyFailures \<in> set (raised s (handleFailedExecution cfg (Some used) s)))
          = (m \<le> int (failedTxnCount s + 1))
      \<and> (TooMuchGasLost \<in> set (raised s (handleFailedExecution cfg (Some used) s)))
          = (c \<le> int (failedTxnGasCost s + (case used of None \<Rightarrow> 0 | Some u \<Rightarrow> u))
             \<and> \<not> (m \<le> int (failedTxnCount s + 1)
                   \<and> (failureShutdownWebhookUrl cfg = [] \<or> remaining s \<noteq> None
                        \<or> fault s = FetchThrows)))
      \<and> (failureShutdownWebhookUrl cfg = [] \<and> remaining s = None
            \<and> m \<le> int (failedTxnCount s + 1) \<longrightarrow>
           exited (handleFailedExecution cfg (Some used) s) = Some TooManyFailures))"
proof -
  have absent: "handleFailedExecution cfg None s = s"
    by (simp add: handleFailedExecution_def)
  have present: "failedTxnCount (handleFailedExecution cfg (Some used) s) = failedTxnCount s + 1
      \<and> failedTxnGasCost (handleFailedExecution cfg (Some used) s)
          = failedTxnGasCost s + (case used of None \<Rightarrow> 0 | Some u \<Rightarrow> u)
      \<and> (TooManyFailures \<in> set (raised s (handleFailedExecution cfg (Some used) s)))
          = (m \<le> int (failedTxnCount s + 1))
      \<and> (TooMuchGasLost \<in> set (raised s (handleFailedExecution cfg (Some used) s)))
          = (c \<le> int (failedTxnGasCost s + (case used of None \<Rightarrow> 0 | Some u \<Rightarrow> u))
             \<and> \<not> (m \<le> int (failedTxnCount s + 1)
                   \<and> (failureShutdownWebhookUrl cfg = [] \<or> remaining s \<noteq> None
                        \<or> fault s = FetchThrows)))
      \<and> (failureShutdownWebhookUrl cfg = [] \<and> remaining s = None
            \<and> m \<le> int (failedTxnCount s + 1) \<longrightarrow>
           exited (handleFailedExecution cfg (Some used) s) = Some TooManyFailures)"
    if pre: "alive s" "maxFailureCount cfg = Some m" "maxFailureGasCost cfg = Some c"
  proof -
    note facts = handleFailedExecution_raised [OF pre refl refl refl refl refl, of used]
    show ?thesis
      using facts(4) by (simp add: facts(1-3))
  qed
  from absent present show ?thesis
    by blast
qed

theorem handleFailedExecution_thresholds_witness:
  "handleFailedExecution sampleConfig None
       (handleFailedExecution sampleConfig (Some (Some 21000)) initialState)
     = handleFailedExecution sampleConfig (Some (Some 21000)) initialState
   \<and> raised initialState
     (handleFailedExecution sampleConfig (Some (Some 21000))
       (handleFailedExecution sampleConfig (Some (Some 21000)) initialState)) = []
   \<and> TooManyFailures \<in> set (raised
       (handleFailedExecution sampleConfig (Some (Some 21000))
         (handleFailedExecution sampleConfig (Some (Some 21000)) initialState))
       (handleFailedExecution sampleConfig (Some (Some 21000))
         (handleFailedExecution sampleConfig (Some (Some 21000))
           (handleFailedExecution sampleConfig (Some (Some 21000)) initialState))))
   \<and> exited (handleFailedExecution sampleConfig (Some (Some 21000))
         (handleFailedExecution sampleConfig (Some (Some 21000))
           (handleFailedExecution sampleConfig (Some (Some 21000)) initialState)))
       = Some TooManyFailures"
proof -
  let ?r = "Some (Some (21000::nat))"
  let ?s1 = "handleFailedExecution sampleConfig ?r initialState"
  let ?s2 = "handleFailedExecution sampleConfig ?r ?s1"
  have cfg: "maxFailureCount sampleConfig = Some 3"
    "maxFailureGasCost sampleConfig = Some 1000000"
    "failureShutdownWebhookUrl sampleConfig = []"
    by (simp_all add: sampleConfig_def)
  have s1: "alive ?s1" "failedTxnCount ?s1 = 1" "failedTxnGasCost ?s1 = 21000"
    "shutdowns ?s1 = []" "fault ?s1 = NoFault"
    by (simp_all add: handleFailedExecution_def Let_def whenAlive_def alive_def
        setFailedTxnTimer_def sampleConfig_def initialState_def)
  note f2 = handleFailedExecution_raised [OF s1(1) cfg(1,2) refl refl refl refl refl,
      of "Some 21000"]
  have s2: "alive ?s2" "failedTxnCount ?s2 = 2" "shutdowns ?s2 = []"
    using f2(1,2,5) by (simp_all add: alive_def s1)
  have f2': "fault ?s2 = NoFault"
    by (simp add: handleFailedExecution_fault initialState_def)
  have none: "remaining ?s2 = None"
    by (simp add: remaining_def f2')
  have "raised initialState ?s2 = []"
    using s2(3) by (simp add: raised_def)
  with handleFailedExecution_thresholds [of sampleConfig ?s1 3 1000000 "Some 21000"]
    handleFailedExecution_thresholds [of sampleConfig ?s2 3 1000000 "Some 21000"]
    s2 none
  show ?thesis
    by (simp add: cfg)
qed

theorem handleFailedExecution_counterexample:
  "failedTxnCount (handleFailedExecution sampleConfig None initialState)
     \<noteq> failedTxnCount initialState + 1
   \<and> int (failedTxnGasCost (handleFailedExecution
          (sampleConfig\<lparr>maxFailureCount := Some 1, maxFailureGasCost := Some 21000\<rparr>)
          (Some (Some 21000)) initialState)) \<ge> 21000
   \<and> TooMuchGasLost \<notin> set (raised initialState (handleFailedExecution
          (sampleConfig\<lparr>maxFailureCount := Some 1, maxFailureGasCost := Some 21000\<rparr>)
          (Some (Some 21000)) initialState))"
  by (simp add: handleFailedExecution_def Let_def whenAlive_def alive_def handleError_def
      handleShutdown_def remaining_def sampleConfig_def initialState_def raised_def)

text \<open>
  C5, at the failing input. With \<open>resetTimerOnFailure\<close> on, two failures in a row leave
  two timeouts pending: the first is not cleared when the second is set. When the first
  expires it zeroes the counters and clears the field while the second still runs.
\<close>

theorem restart_keeps_old_timer:
  "timers (handleFailedExecution (sampleConfig\<lparr>resetTimerOnFailure := True\<rparr>)
      (Some (Some 21000)) initialState) = [0]
   \<and> timers (handleFailedExecution (sampleConfig\<lparr>resetTimerOnFailure := True\<rparr>)
        (Some (Some 21000))
        (handleFailedExecution (sampleConfig\<lparr>resetTimerOnFailure := True\<rparr>)
          (Some (Some 21000)) initialState)) = [0, 1]
   \<and> failedTxnTimer (handleFailedExecution (sampleConfig\<lparr>resetTimerOnFailure := True\<rparr>)
        (Some (Some 21000))
        (handleFailedExecution (sampleConfig\<lparr>resetTimerOnFailure := True\<rparr>)
          (Some (Some 21000)) initialState)) = Some 1
   \<and> timers (timerExpired 0
        (handleFailedExecution (sampleConfig\<lparr>resetTimerOnFailure := True\<rparr>)
          (Some (Some 21000))
          (handleFailedExecution (sampleConfig\<lparr>resetTimerOnFailure := True\<rparr>)
            (Some (Some 21000)) initialState))) = [1]
   \<and> failedTxnCount (timerExpired 0
        (handleFailedExecution (sampleConfig\<lparr>resetTimerOnFailure := True\<rparr>)
          (Some (Some 21000))
          (handleFailedExecution (sampleConfig\<lparr>resetTimerOnFailure := True\<rparr>)
            (Some (Some 21000)) initialState))) = 0"
  by (simp add: handleFailedExecution_def Let_def whenAlive_def alive_def handleError_def
      handleShutdown_def sampleConfig_def initialState_def setFailedTxnTimer_def
      timerExpired_def)

subsection \<open>The counters only grow between resets\<close>

lemma grown_refl [simp]: "grown s s"
  by (simp add: grown_def)

lemma grown_frame [simp]:
  "grown s (called c t) = grown s t"
  "grown s (lockOrder i t) = grown s t"
  "grown s (unlockOrder i t) = grown s t"
  "grown s (handleShutdown cfg x t) = grown s t"
  "grown s (handleError cfg x t) = grown s t"
  "grown s (removePoolOrder cfg e i order t) = grown s t"
  "grown s (addPoolOrder cfg e i order t) = grown s t"
  "grown s (removeSubscription pair t) = grown s t"
  "grown s (setFailedTxnTimer t) = grown s t"
  "grown s (t\<lparr>pools := p\<rparr>) = grown s t"
  "grown s (t\<lparr>badOrderMap := b\<rparr>) = grown s t"
  by (simp_all add: grown_def)

lemma grown_fetchSettled [simp]: "grown s (fetchSettled ok t) = grown s t"
  by (simp add: grown_def fetchSettled_def split: list.splits)

lemma grown_handleFailedExecution [simp]:
  "grown s t \<Longrightarrow> grown s (handleFailedExecution cfg r t)"
  by (auto simp add: handleFailedExecution_def Let_def whenAlive_def grown_def
      split: option.splits)

lemma grown_arbitrate [simp]:
  "grown s t \<Longrightarrow> grown s (snd (arbitrate cfg e order g t))"
  by (simp add: arbitrate_def Let_def whenAlive_def split: exec_result.splits)

lemma grown_estimate [simp]:
  "grown s t \<Longrightarrow> grown s (snd (estimate cfg e order t))"
  by (simp add: estimate_def Let_def split: option.splits)

lemma grown_executeIfAppropriate [simp]:
  "grown s t \<Longrightarrow> grown s (snd (executeIfAppropriate cfg e order t))"
  by (simp add: executeIfAppropriate_def Let_def split: option.splits)

lemma grown_syncOrders [simp]:
  "grown s t \<Longrightarrow> grown s (syncOrders cfg e pair ks t)"
proof (induction ks arbitrary: t)
  case Nil
  then show ?case by simp
next
  case (Cons k ks)
  show ?case
  proof (cases "pools t pair")
    case None
    with Cons.prems show ?thesis by simp
  next
    case (Some pool)
    show ?thesis
    proof (cases "map_of (orders pool) k")
      case None
      with Some Cons show ?thesis by simp
    next
      case found: (Some order)
      obtain res t1 where ev: "executeIfAppropriate cfg e order t = (res, t1)"
        by (cases "executeIfAppropriate cfg e order t")
      have g1: "grown s t1"
        using grown_executeIfAppropriate [OF Cons.prems, of cfg e order] ev by simp
      show ?thesis
        using Some found ev g1 Cons.IH
        by (simp split: option.splits)
    qed
  qed
qed

lemma grown_poolChangeData [simp]:
  "grown s t \<Longrightarrow> grown s (poolChangeData cfg e pair t)"
  by (simp add: poolChangeData_def split: option.splits)

lemma grown_orderPlacedData [simp]:
  "grown s t \<Longrightarrow> grown s (orderPlacedData cfg e ev t)"
proof -
  assume g: "grown s t"
  show ?thesis
  proof (cases "returnValues ev")
    case None
    with g show ?thesis by (simp add: orderPlacedData_def)
  next
    case (Some order)
    obtain res t1 where ev: "executeIfAppropriate cfg e order t = (res, t1)"
      by (cases "executeIfAppropriate cfg e order t")
    have "grown s t1"
      using grown_executeIfAppropriate [OF g, of cfg e order] ev by simp
    with Some ev show ?thesis
      by (simp add: orderPlacedData_def whenAlive_def split: option.splits)
  qed
qed

lemma grown_removeTracked [simp]:
  "grown s t \<Longrightarrow> grown s (removeTracked cfg e order t)"
  by (simp add: removeTracked_def Let_def split: option.splits)

lemma grown_orderCancelledData [simp]:
  "grown s t \<Longrightarrow> grown s (orderCancelledData cfg e ev t)"
  by (simp add: orderCancelledData_def split: option.splits)

lemma grown_orderExecutedData [simp]:
  "grown s t \<Longrightarrow> grown s (orderExecutedData cfg e ev t)"
  by (simp add: orderExecutedData_def Let_def split: option.splits)

lemma handleFailedExecution_keeps_timer:
  "\<not> resetTimerOnFailure cfg \<Longrightarrow> failedTxnTimer s = Some t \<Longrightarrow>
   failedTxnTimer (handleFailedExecution cfg r s) = Some t
   \<and> timers (handleFailedExecution cfg r s) = timers s
   \<and> nextTimer (handleFailedExecution cfg r s) = nextTimer s"
  by (simp add: handleFailedExecution_def Let_def whenAlive_def split: option.splits)

text \<open>
  C9. With reset-on-failure off and a timer in the field, \<open>handleFailedExecution\<close>
  leaves the field and the pending timeouts as they are. When a pending timeout fires,
  both counters are zero and the field is cleared. Every other step of the service,
  and \<open>handleFailedExecution\<close> itself, leaves each counter at least as large as it
  was.
\<close>

theorem failure_window:
  "(\<not> resetTimerOnFailure cfg \<and> failedTxnTimer s = Some t \<longrightarrow>
      failedTxnTimer (handleFailedExecution cfg r s) = Some t
    \<and> timers (handleFailedExecution cfg r s) = timers s)
   \<and> (t \<in> set (timers s) \<longrightarrow>
        failedTxnCount (step cfg e (TimerFires t) s) = (if alive s then 0 else failedTxnCount s)
      \<and> failedTxnCount (timerExpired t s) = 0
      \<and> failedTxnGasCost (timerExpired t s) = 0
      \<and> failedTxnTimer (timerExpired t s) = None)
   \<and> ((\<forall>x. ev \<noteq> TimerFires x) \<longrightarrow>
        failedTxnCount s \<le> failedTxnCount (step cfg e ev s)
      \<and> failedTxnGasCost s \<le> failedTxnGasCost (step cfg e ev s))
   \<and> failedTxnCount s \<le> failedTxnCount (handleFailedExecution cfg r s)
   \<and> failedTxnGasCost s \<le> failedTxnGasCost (handleFailedExecution cfg r s)"
proof -
  have recorded: "failedTxnCount s \<le> failedTxnCount (handleFailedExecution cfg r s)"
    "failedTxnGasCost s \<le> failedTxnGasCost (handleFailedExecution cfg r s)"
    using grown_handleFailedExecution [OF grown_refl, of s cfg r]
    by (simp_all add: grown_def)
  have "grown s (step cfg e ev s)" if "\<forall>x. ev \<noteq> TimerFires x"
    using that by (cases ev) (simp_all add: step_def)
  then have stepped: "(\<forall>x. ev \<noteq> TimerFires x) \<longrightarrow>
        failedTxnCount s \<le> failedTxnCount (step cfg e ev s)
      \<and> failedTxnGasCost s \<le> failedTxnGasCost (step cfg e ev s)"
    by (simp add: grown_def)
  have fired: "t \<in> set (timers s) \<longrightarrow>
        failedTxnCount (step cfg e (TimerFires t) s) = (if alive s then 0 else failedTxnCount s)
      \<and> failedTxnCount (timerExpired t s) = 0
      \<and> failedTxnGasCost (timerExpired t s) = 0
      \<and> failedTxnTimer (timerExpired t s) = None"
    by (simp add: timerExpired_def step_def)
  show ?thesis
    using handleFailedExecution_keeps_timer [of cfg s t r] recorded stepped fired
    by blast
qed

theorem failure_window_witness:
  "failedTxnTimer (handleFailedExecution sampleConfig (Some None)
      (handleFailedExecution sampleConfig (Some (Some 21000)) initialState)) = Some 0
   \<and> timers (handleFailedExecution sampleConfig (Some None)
      (handleFailedExecution sampleConfig (Some (Some 21000)) initialState)) = [0]
   \<and> failedTxnCount (timerExpired 0
        (handleFailedExecution sampleConfig (Some (Some 21000)) initialState)) = 0
   \<and> failedTxnGasCost (timerExpired 0
        (handleFailedExecution sampleConfig (Some (Some 21000)) initialState)) = 0
   \<and> failedTxnTimer (timerExpired 0
        (handleFailedExecution sampleConfig (Some (Some 21000)) initialState)) = None
   \<and> failedTxnCount (handleFailedExecution sampleConfig (Some (Some 21000)) initialState)
       \<le> failedTxnCount (step sampleConfig sampleEnv Signal
            (handleFailedExecution sampleConfig (Some (Some 21000)) initialState))"
proof -
  let ?s1 = "handleFailedExecution sampleConfig (Some (Some 21000)) initialState"
  have s1: "failedTxnTimer ?s1 = Some 0" "timers ?s1 = [0]"
    by (simp_all add: handleFailedExecution_def Let_def whenAlive_def alive_def
        setFailedTxnTimer_def sampleConfig_def initialState_def)
  have cfg: "\<not> resetTimerOnFailure sampleConfig"
    by (simp add: sampleConfig_def)
  have ev: "\<forall>x. Signal \<noteq> TimerFires x"
    by simp
  from failure_window [of sampleConfig ?s1 0 "Some None" sampleEnv Signal] s1 cfg ev
  show ?thesis
    by simp
qed

subsection \<open>Locks that are never released\<close>

lemma locks_arbitrate:
  "A \<subseteq> orderLocks t \<Longrightarrow>
   A - {orderId order} \<subseteq> orderLocks (snd (arbitrate cfg e order g t))"
  by (auto simp add: arbitrate_def Let_def whenAlive_def split: exec_result.splits)

lemma locks_estimate:
  "A \<subseteq> orderLocks t \<Longrightarrow>
   A - {orderId order} \<subseteq> orderLocks (snd (estimate cfg e order t))"
  using locks_arbitrate [of A _ order cfg e]
  by (auto simp add: estimate_def Let_def split: option.splits)

lemma locks_executeIfAppropriate:
  assumes "A \<subseteq> orderLocks t"
  shows "A \<subseteq> orderLocks (snd (executeIfAppropriate cfg e order t))"
proof (cases "orderId order \<in> orderLocks t \<or> orderState order \<noteq> Placed")
  case True
  with assms show ?thesis
    by (auto simp add: executeIfAppropriate_def)
next
  case False
  let ?t1 = "called (IsInTheMoney (orderId order)) (lockOrder (orderId order) t)"
  have "A \<subseteq> orderLocks ?t1"
    using assms by auto
  from locks_estimate [OF this, of order cfg e] have
    "A - {orderId order} \<subseteq> orderLocks (snd (estimate cfg e order ?t1))" .
  moreover have "orderId order \<notin> A"
    using False assms by auto
  ultimately have "A \<subseteq> orderLocks (snd (estimate cfg e order ?t1))"
    by auto
  with False assms show ?thesis
    by (auto simp add: executeIfAppropriate_def Let_def split: option.splits)
qed

lemma locks_syncOrders:
  "A \<subseteq> orderLocks t \<Longrightarrow> A \<subseteq> orderLocks (syncOrders cfg e pair ks t)"
proof (induction ks arbitrary: t)
  case Nil
  then show ?case by simp
next
  case (Cons k ks)
  show ?case
  proof (cases "pools t pair")
    case None
    with Cons.prems show ?thesis by simp
  next
    case (Some pool)
    show ?thesis
    proof (cases "map_of (orders pool) k")
      case None
      with Some Cons show ?thesis by simp
    next
      case found: (Some order)
      obtain res t1 where ev: "executeIfAppropriate cfg e order t = (res, t1)"
        by (cases "executeIfAppropriate cfg e order t")
      have l1: "A \<subseteq> orderLocks t1"
        using locks_executeIfAppropriate [OF Cons.prems, of cfg e order] ev by simp
      then have "A \<subseteq> orderLocks (syncOrders cfg e pair ks (t1\<lparr>pools := p\<rparr>))" for p
        by (intro Cons.IH) simp
      with Some found ev l1 Cons.IH [OF l1] show ?thesis
        by (simp split: option.splits)
    qed
  qed
qed

lemma locks_removeTracked:
  "A \<subseteq> orderLocks t \<Longrightarrow> A \<subseteq> orderLocks (removeTracked cfg e order t)"
  by (simp add: removeTracked_def Let_def split: option.splits)

lemma locks_step:
  assumes "A \<subseteq> orderLocks t"
  shows "A \<subseteq> orderLocks (step cfg e ev t)"
proof (cases ev)
  case (OrderPlaced x)
  show ?thesis
  proof (cases "returnValues x")
    case None
    with assms OrderPlaced show ?thesis
      by (simp add: step_def orderPlacedData_def)
  next
    case (Some order)
    obtain res t1 where ev: "executeIfAppropriate cfg e order t = (res, t1)"
      by (cases "executeIfAppropriate cfg e order t")
    have "A \<subseteq> orderLocks t1"
      using locks_executeIfAppropriate [OF assms, of cfg e order] ev by simp
    with assms OrderPlaced Some ev show ?thesis
      by (simp add: step_def orderPlacedData_def whenAlive_def split: option.splits)
  qed
next
  case (OrderCancelled x)
  with assms show ?thesis
    by (simp add: step_def orderCancelledData_def locks_removeTracked split: option.splits)
next
  case (OrderExecuted x)
  with assms show ?thesis
    by (simp add: step_def orderExecutedData_def Let_def locks_removeTracked
        split: option.splits)
next
  case (Sync pair)
  with assms show ?thesis
    by (simp add: step_def poolChangeData_def locks_syncOrders split: option.splits)
next
  case (TimerFires x)
  with assms show ?thesis
    by (simp add: step_def timerExpired_def)
next
  case (FetchSettles ok)
  with assms show ?thesis
    by (simp add: step_def fetchSettled_def split: list.splits)
next
  case Signal
  with assms show ?thesis
    by (simp add: step_def)
qed

lemma locks_run: "A \<subseteq> orderLocks t \<Longrightarrow> A \<subseteq> orderLocks (run cfg evs t)"
proof (induction evs arbitrary: t)
  case Nil
  then show ?case by simp
next
  case (Cons x evs)
  obtain e ev where x: "x = (e, ev)"
    by (cases x)
  from Cons.prems have "A \<subseteq> orderLocks (step cfg e ev t)"
    by (rule locks_step)
  then show ?case
    unfolding x by (simp add: Cons.IH)
qed

lemma estimate_usable:
  assumes "usableEstimate e (orderId order) = Some g" and "g \<noteq> 0"
  shows "estimate cfg e order t =
           arbitrate cfg e order g
             (case ESTIMATED_GAS_OVERRIDE e of
                Some n \<Rightarrow> t
              | None \<Rightarrow> called (GetEstimatedGasForOrder (orderId order)) t)"
proof (cases "ESTIMATED_GAS_OVERRIDE e")
  case None
  with assms show ?thesis
    by (simp add: estimate_def usableEstimate_def Let_def)
next
  case (Some n)
  with assms show ?thesis
    by (simp add: estimate_def usableEstimate_def Let_def)
qed

lemma arbitrate_resolves:
  assumes "getPreferredGasPrice e = p" and "p \<noteq> 0" and "g * p < executorFee order"
    and "executeOrder e order g p = Resolves r"
  shows "arbitrate cfg e order g t =
           (Some r, called (ExecuteOrder (orderId order) g p) (called GetPreferredGasPrice t))"
  using assms by (simp add: arbitrate_def Let_def)

lemma resolved_state:
  assumes "orderId order \<notin> orderLocks s" and "orderState order = Placed"
    and "isInTheMoney e order = Some True"
    and "usableEstimate e (orderId order) = Some g" and "g \<noteq> 0"
    and "getPreferredGasPrice e = p" and "p \<noteq> 0"
    and "g * p < executorFee order"
    and "executeOrder e order g p = Resolves r"
  shows "fst (executeIfAppropriate cfg e order s) = Some r"
    and "orderLocks (snd (executeIfAppropriate cfg e order s))
           = insert (orderId order) (orderLocks s)"
    and "pools (snd (executeIfAppropriate cfg e order s)) = pools s"
    and "exited (snd (executeIfAppropriate cfg e order s)) = exited s"
proof -
  let ?s1 = "called (IsInTheMoney (orderId order)) (lockOrder (orderId order) s)"
  have "executeIfAppropriate cfg e order s = estimate cfg e order ?s1"
    using assms(1-3) by (simp add: executeIfAppropriate_def Let_def)
  then have run: "executeIfAppropriate cfg e order s =
      (Some r, called (ExecuteOrder (orderId order) g p) (called GetPreferredGasPrice
         (case ESTIMATED_GAS_OVERRIDE e of
            Some n \<Rightarrow> ?s1
          | None \<Rightarrow> called (GetEstimatedGasForOrder (orderId order)) ?s1)))"
    by (simp add: estimate_usable [OF assms(4,5)] arbitrate_resolves [OF assms(6-9)])
  show "fst (executeIfAppropriate cfg e order s) = Some r"
    by (simp add: run)
  show "orderLocks (snd (executeIfAppropriate cfg e order s))
           = insert (orderId order) (orderLocks s)"
    by (simp add: run split: option.splits)
  show "pools (snd (executeIfAppropriate cfg e order s)) = pools s"
    by (simp add: run split: option.splits)
  show "exited (snd (executeIfAppropriate cfg e order s)) = exited s"
    by (simp add: run split: option.splits)
qed

lemma addPoolOrder_tracks:
  "getPairAddress e (tokenIn order) (tokenOut order) = Some pair \<Longrightarrow>
   \<exists>pool. pools (addPoolOrder cfg e i order s) pair = Some pool
     \<and> map_of (orders pool) i = Some order"
  by (simp add: addPoolOrder_def getOrCreatePool_def Let_def addOrder_def
      AList.update_conv' split: option.splits)

text \<open>
  C10. Let the execution call of \<open>executeIfAppropriate\<close> resolve, with result \<open>r\<close>. Then
  \<open>r\<close> is returned with the order's id still in \<open>orderLocks\<close>; after any run of events
  the id is still there, so \<open>executeIfAppropriate\<close> on any order with that id returns
  false and changes nothing. When \<open>r\<close> is falsy, the \<open>OrderPlaced\<close> handler puts the order
  into its pool while its id stays locked.
\<close>

theorem resolved_execution_stays_locked:
  assumes "orderId order \<notin> orderLocks s" and "orderState order = Placed"
    and "isInTheMoney e order = Some True"
    and "usableEstimate e (orderId order) = Some g" and "g \<noteq> 0"
    and "getPreferredGasPrice e = p" and "p \<noteq> 0"
    and "g * p < executorFee order"
    and "executeOrder e order g p = Resolves r"
    and "orderId order' = orderId order"
  shows "fst (executeIfAppropriate cfg e order s) = Some r
       \<and> orderId order \<in> orderLocks (run cfg evs (snd (executeIfAppropriate cfg e order s)))
       \<and> executeIfAppropriate cfg e' order'
            (run cfg evs (snd (executeIfAppropriate cfg e order s)))
           = (Some False, run cfg evs (snd (executeIfAppropriate cfg e order s)))
       \<and> (\<not> r \<and> alive s \<and> getPairAddress e (tokenIn order) (tokenOut order) = Some pair \<longrightarrow>
            orderId order \<in> orderLocks
              (orderPlacedData cfg e \<lparr>transactionHash = h, returnValues = Some order\<rparr> s)
          \<and> (\<exists>pool. pools (orderPlacedData cfg e
                         \<lparr>transactionHash = h, returnValues = Some order\<rparr> s) pair = Some pool
                \<and> map_of (orders pool) (orderId order) = Some order))"
proof -
  let ?s1 = "snd (executeIfAppropriate cfg e order s)"
  note st = resolved_state [OF assms(1-9), of cfg]
  have "{orderId order} \<subseteq> orderLocks ?s1"
    by (simp add: st(2))
  then have "{orderId order} \<subseteq> orderLocks (run cfg evs ?s1)"
    by (rule locks_run)
  then have kept: "orderId order \<in> orderLocks (run cfg evs ?s1)"
    by simp
  then have skip: "executeIfAppropriate cfg e' order' (run cfg evs ?s1)
      = (Some False, run cfg evs ?s1)"
    using assms(10) by (simp add: executeIfAppropriate_def)
  have placed: "orderPlacedData cfg e \<lparr>transactionHash = h, returnValues = Some order\<rparr> s
      = addPoolOrder cfg e (orderId order) order ?s1" if "\<not> r" and "alive s"
    using that st(1,4)
    by (cases "executeIfAppropriate cfg e order s")
      (simp add: orderPlacedData_def whenAlive_def alive_def)
  show ?thesis
    using st(1) kept skip
    by (auto simp add: placed st(2) addPoolOrder_tracks)
qed

theorem resolved_execution_stays_locked_witness:
  "fst (executeIfAppropriate sampleConfig falsyEnv sampleOrder initialState) = Some False
   \<and> orderId sampleOrder \<in> orderLocks
        (run sampleConfig [(sampleEnv, Sync ''0xP''), (sampleEnv, OrderPlaced placedEvent)]
          (snd (executeIfAppropriate sampleConfig falsyEnv sampleOrder initialState)))
   \<and> executeIfAppropriate sampleConfig sampleEnv sampleOrder
        (run sampleConfig [(sampleEnv, Sync ''0xP''), (sampleEnv, OrderPlaced placedEvent)]
          (snd (executeIfAppropriate sampleConfig falsyEnv sampleOrder initialState)))
       = (Some False,
          run sampleConfig [(sampleEnv, Sync ''0xP''), (sampleEnv, OrderPlaced placedEvent)]
            (snd (executeIfAppropriate sampleConfig falsyEnv sampleOrder initialState)))
   \<and> orderId sampleOrder \<in> orderLocks
        (orderPlacedData sampleConfig falsyEnv placedEvent initialState)
   \<and> (\<exists>pool. pools (orderPlacedData sampleConfig falsyEnv placedEvent initialState) ''0xP''
                 = Some pool
          \<and> map_of (orders pool) (orderId sampleOrder) = Some sampleOrder)"
proof -
  have pre: "orderId sampleOrder \<notin> orderLocks initialState"
    "orderState sampleOrder = Placed"
    "isInTheMoney falsyEnv sampleOrder = Some True"
    "usableEstimate falsyEnv (orderId sampleOrder) = Some 8" "(8::nat) \<noteq> 0"
    "getPreferredGasPrice falsyEnv = 10" "(10::nat) \<noteq> 0"
    "8 * 10 < executorFee sampleOrder"
    "executeOrder falsyEnv sampleOrder 8 10 = Resolves False"
    "orderId sampleOrder = orderId sampleOrder"
    by (simp_all add: sampleOrder_def falsyEnv_def sampleEnv_def initialState_def
        usableEstimate_def)
  have more: "alive initialState"
    "getPairAddress falsyEnv (tokenIn sampleOrder) (tokenOut sampleOrder) = Some ''0xP''"
    by (simp_all add: alive_def initialState_def falsyEnv_def sampleEnv_def)
  from resolved_execution_stays_locked [OF pre, of sampleConfig
      "[(sampleEnv, Sync ''0xP''), (sampleEnv, OrderPlaced placedEvent)]" sampleEnv
      "''0xP''" "''0xT''"] more
  show ?thesis
    unfolding placedEvent_def by simp
qed

subsection \<open>Shutdown\<close>




subsection \<open>Pools and their subscriptions\<close>

text \<open>
  C2, at two failing inputs. A pool holds the orders 7 and 8 and order 7 is cancelled:
  the handler deletes the pool, with order 8 in it, and the subscription. A pool holds
  order 7 alone and it is cancelled: the emptied pool and its subscription stay. The
  handler of \<open>OrderExecuted\<close> runs the same lines.
\<close>

theorem cancel_tears_down_wrong_pool:
  "pools (orderCancelledData sampleConfig sampleEnv cancelEvent
       (addPoolOrder sampleConfig sampleEnv 8 otherOrder
         (addPoolOrder sampleConfig sampleEnv 7 sampleOrder initialState))) ''0xP'' = None
   \<and> ''0xP'' \<notin> poolListeners (orderCancelledData sampleConfig sampleEnv cancelEvent
       (addPoolOrder sampleConfig sampleEnv 8 otherOrder
         (addPoolOrder sampleConfig sampleEnv 7 sampleOrder initialState)))
   \<and> pools (orderCancelledData sampleConfig sampleEnv cancelEvent
       (addPoolOrder sampleConfig sampleEnv 7 sampleOrder initialState)) ''0xP''
       = Some (newTokenPool ''0xP'')
   \<and> ''0xP'' \<in> poolListeners (orderCancelledData sampleConfig sampleEnv cancelEvent
       (addPoolOrder sampleConfig sampleEnv 7 sampleOrder initialState))
   \<and> orderExecutedData sampleConfig sampleEnv cancelEvent
       (addPoolOrder sampleConfig sampleEnv 8 otherOrder
         (addPoolOrder sampleConfig sampleEnv 7 sampleOrder initialState))
       = orderCancelledData sampleConfig sampleEnv cancelEvent
       (addPoolOrder sampleConfig sampleEnv 8 otherOrder
         (addPoolOrder sampleConfig sampleEnv 7 sampleOrder initialState))"
  by (simp add: orderCancelledData_def orderExecutedData_def removeTracked_def
      removePoolOrder_def addPoolOrder_def getOrCreatePool_def removeSubscription_def
      Let_def alive_def cancelEvent_def sampleOrder_def otherOrder_def sampleEnv_def
      initialState_def newTokenPool_def addOrder_def removeOrder_def getOrderCount_def)

lemma removeOrder_absent:
  "map_of (orders pool) i = None \<Longrightarrow> removeOrder i pool = pool"
  by (simp add: removeOrder_def map_of_eq_None_iff)

text \<open>
  C3, amended. With the pair address of the order at hand: \<open>addPoolOrder\<close> on a registry
  without a pool for the pair creates the pool, holding that order alone, and its
  subscription. \<open>removePoolOrder\<close> takes the order out and leaves the pool, now empty,
  in the registry; the next Sync event of the pair deletes the empty pool and the
  subscription. \<open>removePoolOrder\<close> for an order that no pool holds changes nothing.
\<close>

theorem pool_lifecycle:
  assumes "getPairAddress e (tokenIn order) (tokenOut order) = Some pair"
  shows "(pools s pair = None \<longrightarrow>
            pools (addPoolOrder cfg e i order s) pair
              = Some (addOrder i order (newTokenPool pair))
          \<and> pair \<in> poolListeners (addPoolOrder cfg e i order s)
          \<and> pools (removePoolOrder cfg e i order (addPoolOrder cfg e i order s)) pair
              = Some (newTokenPool pair)
          \<and> getOrderCount (newTokenPool pair) = 0
          \<and> pools (poolChangeData cfg e' pair
                (removePoolOrder cfg e i order (addPoolOrder cfg e i order s))) pair = None
          \<and> pair \<notin> poolListeners (poolChangeData cfg e' pair
                (removePoolOrder cfg e i order (addPoolOrder cfg e i order s))))
       \<and> (pools s pair = None \<or> (\<exists>pool. pools s pair = Some pool
              \<and> map_of (orders pool) i = None) \<longrightarrow>
            removePoolOrder cfg e i order s = s)"
proof -
  have created: "pools (addPoolOrder cfg e i order s) pair
        = Some (addOrder i order (newTokenPool pair))"
      "pair \<in> poolListeners (addPoolOrder cfg e i order s)"
    if "pools s pair = None"
    using that assms by (simp_all add: addPoolOrder_def getOrCreatePool_def Let_def)
  have emptied: "removeOrder i (addOrder i order (newTokenPool pair)) = newTokenPool pair"
    by (simp add: removeOrder_def addOrder_def newTokenPool_def)
  have removed: "pools (removePoolOrder cfg e i order (addPoolOrder cfg e i order s)) pair
        = Some (newTokenPool pair)"
    if "pools s pair = None"
    using assms created(1) [OF that] by (simp add: pools_removePoolOrder emptied)
  have count: "getOrderCount (newTokenPool pair) = 0"
    by (simp add: getOrderCount_def newTokenPool_def)
  have tick: "pools (poolChangeData cfg e' pair t) pair = None
      \<and> pair \<notin> poolListeners (poolChangeData cfg e' pair t)"
    if "pools t pair = Some (newTokenPool pair)" for t
    using that count by (simp add: poolChangeData_def removeSubscription_def)
  have noop: "removePoolOrder cfg e i order s = s"
    if "pools s pair = None \<or> (\<exists>pool. pools s pair = Some pool
          \<and> map_of (orders pool) i = None)"
    using that assms
    by (auto simp add: removePoolOrder_def removeOrder_absent map_upd_triv)
  show ?thesis
    using created removed count tick [OF removed] noop by blast
qed

theorem pool_lifecycle_witness:
  "pools (addPoolOrder sampleConfig sampleEnv 7 sampleOrder initialState) ''0xP''
     = Some (addOrder 7 sampleOrder (newTokenPool ''0xP''))
   \<and> ''0xP'' \<in> poolListeners (addPoolOrder sampleConfig sampleEnv 7 sampleOrder initialState)
   \<and> pools (removePoolOrder sampleConfig sampleEnv 7 sampleOrder
        (addPoolOrder sampleConfig sampleEnv 7 sampleOrder initialState)) ''0xP''
       = Some (newTokenPool ''0xP'')
   \<and> pools (poolChangeData sampleConfig sampleEnv ''0xP''
        (removePoolOrder sampleConfig sampleEnv 7 sampleOrder
          (addPoolOrder sampleConfig sampleEnv 7 sampleOrder initialState))) ''0xP'' = None
   \<and> ''0xP'' \<notin> poolListeners (poolChangeData sampleConfig sampleEnv ''0xP''
        (removePoolOrder sampleConfig sampleEnv 7 sampleOrder
          (addPoolOrder sampleConfig sampleEnv 7 sampleOrder initialState)))
   \<and> removePoolOrder sampleConfig sampleEnv 7 sampleOrder initialState = initialState"
proof -
  have pair: "getPairAddress sampleEnv (tokenIn sampleOrder) (tokenOut sampleOrder)
      = Some ''0xP''"
    by (simp add: sampleEnv_def)
  have none: "pools initialState ''0xP'' = None"
    by (simp add: initialState_def)
  from pool_lifecycle [OF pair, of initialState sampleConfig 7 sampleEnv] none
  show ?thesis
    by simp
qed

theorem pool_lifecycle_counterexample:
  "pools (removePoolOrder sampleConfig sampleEnv 7 sampleOrder
      (addPoolOrder sampleConfig sampleEnv 7 sampleOrder initialState)) ''0xP''
     = Some (newTokenPool ''0xP'')
   \<and> getOrderCount (newTokenPool ''0xP'') = 0"
  by (simp add: removePoolOrder_def addPoolOrder_def getOrCreatePool_def Let_def
      sampleEnv_def sampleOrder_def initialState_def newTokenPool_def addOrder_def
      removeOrder_def getOrderCount_def)

end
